theory Spec2Isabelle
  imports Complex_Main
begin

section \<open>Python values and strings\<close>

text \<open>
  The script handles spreadsheet cells and CSV cells. A cell is one of the Python values
  below. A float is the rational it denotes together with the text \<open>str()\<close> prints for it
  (the printing algorithm of the interpreter is not modelled), or NaN, or an infinity.
  A \<open>str\<close> is a list of code points; a \<open>char\<close> is a code point below 256, so the
  model covers the Latin-1 range, where \<open>\d\<close> matches exactly \<open>0\<close> to \<open>9\<close>.
\<close>

datatype pyfloat = FNaN | FInf bool | FFin rat string

datatype pyval = PNone | PBool bool | PInt int | PFloat pyfloat | PStr string

text \<open>
  The exceptions the script raises or lets through, one constructor for each place:
  the ValueError of \<open>load_attendance\<close>, the KeyError pandas raises for a column that
  is not there, the two KeyErrors of \<open>process_experiment\<close>, the FileNotFoundError and
  the RuntimeError of \<open>main\<close>, and the failures of the file system calls.
\<close>

datatype error =
    Header_not_found
  | Missing_column string
  | No_roll_column
  | Session_not_found string
  | Attendance_not_found string
  | Roll_key_missing
  | Read_failed string
  | Write_failed string
  | Listdir_failed string
  | Makedirs_failed string

text \<open>
  \<open>str.strip()\<close> removes the characters for which \<open>str.isspace\<close> holds from both
  ends, and \<open>str.lower()\<close> maps A to Z and the accented capitals of Latin-1 to their
  small letters, 32 code points further on.
\<close>

definition isspace :: "char \<Rightarrow> bool" where
  "isspace c = ((of_char c :: nat) \<in> {9, 10, 11, 12, 13, 28, 29, 30, 31, 32, 133, 160})"

definition strip :: "string \<Rightarrow> string" where
  "strip s = rev (dropWhile isspace (rev (dropWhile isspace s)))"

definition lower_char :: "char \<Rightarrow> char" where
  "lower_char c =
     (let n = (of_char c :: nat)
      in if (65 \<le> n \<and> n \<le> 90) \<or> (192 \<le> n \<and> n \<le> 222 \<and> n \<noteq> 215)
         then char_of (n + 32) else c)"

definition lower :: "string \<Rightarrow> string" where
  "lower s = map lower_char s"

definition startswith :: "string \<Rightarrow> string \<Rightarrow> bool" where
  "startswith s p = (take (length p) s = p)"


text \<open>\<open>sub in s\<close> for strings.\<close>

fun contains :: "string \<Rightarrow> string \<Rightarrow> bool" where
  "contains sub [] = (sub = [])"
| "contains sub (c # cs) = (startswith (c # cs) sub \<or> contains sub cs)"

definition isdigit :: "char \<Rightarrow> bool" where
  "isdigit c = (48 \<le> (of_char c :: nat) \<and> (of_char c :: nat) \<le> 57)"

text \<open>\<open>str()\<close> of an integer, and of the other values.\<close>

definition digit_char :: "nat \<Rightarrow> char" where
  "digit_char d = char_of (48 + d)"

fun str_nat :: "nat \<Rightarrow> string" where
  "str_nat n = (if n < 10 then [digit_char n] else str_nat (n div 10) @ [digit_char (n mod 10)])"

declare str_nat.simps [simp del]

definition str_int :: "int \<Rightarrow> string" where
  "str_int i = (if i < 0 then CHR ''-'' # str_nat (nat (- i)) else str_nat (nat i))"

fun py_str :: "pyval \<Rightarrow> string" where
  "py_str PNone = ''None''"
| "py_str (PBool b) = (if b then ''True'' else ''False'')"
| "py_str (PInt i) = str_int i"
| "py_str (PFloat FNaN) = ''nan''"
| "py_str (PFloat (FInf positive)) = (if positive then ''inf'' else ''-inf'')"
| "py_str (PFloat (FFin q txt)) = txt"
| "py_str (PStr s) = s"

text \<open>\<open>pd.isna\<close> on a scalar: None and NaN are missing values.\<close>

definition isna :: "pyval \<Rightarrow> bool" where
  "isna v = (v = PNone \<or> v = PFloat FNaN)"

text \<open>
  \<open>re.search(r"(\d+)", s)\<close>: the leftmost match, and \<open>\d+\<close> is greedy, so group 1 is
  the whole run of digits that starts at the first digit.
\<close>

fun re_search_digits :: "string \<Rightarrow> string option" where
  "re_search_digits [] = None"
| "re_search_digits (c # cs) =
     (if isdigit c then Some (takeWhile isdigit (c # cs)) else re_search_digits cs)"

text \<open>
  \<open>int(s)\<close> on the strings the group can be: a non-empty run of decimal digits gives its
  decimal value, as an unbounded integer. Anything else is a ValueError here (signs,
  blanks and underscores, which \<open>int\<close> also reads, never reach it from \<open>\d+\<close>). The
  interpreter's optional limit on the length of digit strings is not modelled.
\<close>

definition digit_val :: "char \<Rightarrow> int" where
  "digit_val c = int (of_char c) - 48"

definition decimal_value :: "string \<Rightarrow> int" where
  "decimal_value s = foldl (\<lambda>acc c. 10 * acc + digit_val c) 0 s"

definition py_int :: "string \<Rightarrow> int option" where
  "py_int s = (if s \<noteq> [] \<and> list_all isdigit s then Some (decimal_value s) else None)"

section \<open>Identifier normalisation\<close>

definition extract_roll_number :: "pyval \<Rightarrow> int option" where
  "extract_roll_number roll =
     (if isna roll then None
      else case re_search_digits (py_str roll) of
             Some g \<Rightarrow> (case py_int g of Some n \<Rightarrow> Some n | None \<Rightarrow> None)
           | None \<Rightarrow> None)"

definition truthy_tokens :: "string list" where
  "truthy_tokens = [''p'', ''present'', ''yes'', ''y'', ''1'', ''attended'', ''true'']"

text \<open>
  \<open>isinstance(val, (int, float))\<close> holds for a bool as well (bool is a subclass of int),
  and \<open>val != 0\<close> holds for NaN and the infinities.
\<close>

fun normalize_presence :: "pyval \<Rightarrow> bool" where
  "normalize_presence PNone = False"
| "normalize_presence (PBool b) = b"
| "normalize_presence (PInt i) = (i \<noteq> 0)"
| "normalize_presence (PFloat (FFin q txt)) = (q \<noteq> 0)"
| "normalize_presence (PFloat f) = True"
| "normalize_presence (PStr s) = (lower (strip s) \<in> set truthy_tokens)"

section \<open>Tables\<close>

text \<open>
  A DataFrame is its list of column names and its rows, each row a dictionary from column
  name to cell (what \<open>iterrows\<close> hands out). Column names are strings. Reading a cell
  that a row does not have gives NaN, as pandas fills holes.
\<close>

type_synonym row = "string \<rightharpoonup> pyval"

record dataframe =
  columns :: "string list"
  rows :: "row list"

definition cell :: "row \<Rightarrow> string \<Rightarrow> pyval" where
  "cell r c = (case r c of Some v \<Rightarrow> v | None \<Rightarrow> PFloat FNaN)"

text \<open>\<open>df[c] = values\<close>: overwrites the column where it stands, or appends it.\<close>

definition df_set_column :: "dataframe \<Rightarrow> string \<Rightarrow> (row \<Rightarrow> pyval) \<Rightarrow> dataframe" where
  "df_set_column df c f =
     \<lparr>columns = (if c \<in> set (columns df) then columns df else columns df @ [c]),
      rows = map (\<lambda>r. r(c \<mapsto> f r)) (rows df)\<rparr>"

text \<open>\<open>df.drop(columns=[c], errors="ignore")\<close>.\<close>

definition df_drop_column :: "dataframe \<Rightarrow> string \<Rightarrow> dataframe" where
  "df_drop_column df c =
     \<lparr>columns = filter (\<lambda>x. x \<noteq> c) (columns df),
      rows = map (\<lambda>r. r(c := None)) (rows df)\<rparr>"

text \<open>
  \<open>pd.DataFrame(records)\<close> for a list of dictionaries that all have the same keys in the
  same order: no columns at all for the empty list.
\<close>

definition df_from_records :: "(string \<times> pyval) list list \<Rightarrow> dataframe" where
  "df_from_records recs =
     \<lparr>columns = (case recs of [] \<Rightarrow> [] | r # _ \<Rightarrow> map fst r),
      rows = map map_of recs\<rparr>"

text \<open>
  A key computed by \<open>extract_roll_number\<close> as pandas stores it in a column: the integer,
  or a missing value (None or NaN according to the column's type, both missing for
  \<open>pd.isna\<close>; None here). In a column with missing values pandas keeps the integers as
  floats of the same value, which are the same dictionary keys in Python; the model keeps
  the integers.
\<close>

definition key_cell :: "int option \<Rightarrow> pyval" where
  "key_cell k = (case k of Some n \<Rightarrow> PInt n | None \<Rightarrow> PNone)"

section \<open>Constants\<close>

definition PARAM_MARKS :: "(string \<times> int) list" where
  "PARAM_MARKS =
     [(''Timely completion, punctuality'', 2),
      (''Performance, involvement, efficiency'', 4),
      (''Oral Presentation'', 3),
      (''Documentation, neatness'', 1)]"

definition SESSION_PREFIX :: string where
  "SESSION_PREFIX = ''Session ''"

definition ROLL_ALIASES :: "string list" where
  "ROLL_ALIASES = [''Roll'', ''Roll No'', ''Roll No.'', ''RollNumber'']"

definition TOTAL_COL_NAME :: string where
  "TOTAL_COL_NAME = ''Total''"

text \<open>The helper column, written \<open>"__roll_num_key"\<close> wherever the script uses it.\<close>

definition ROLL_NUM_KEY :: string where
  "ROLL_NUM_KEY = ''__roll_num_key''"

section \<open>Attendance Loader\<close>

text \<open>The argument is what \<open>list(csv.reader(f))\<close> gives: rows of string cells.\<close>

definition is_header_row :: "string list \<Rightarrow> bool" where
  "is_header_row row =
     (length row \<ge> 1 \<and> list_ex (\<lambda>c. startswith (lower (strip c)) ''roll'') (take 3 row))"

fun find_header :: "nat \<Rightarrow> string list list \<Rightarrow> nat option" where
  "find_header i [] = None"
| "find_header i (row # rest) =
     (if is_header_row row then Some i else find_header (Suc i) rest)"

definition presence_cell :: "string list \<Rightarrow> nat \<Rightarrow> pyval" where
  "presence_cell row session_num =
     (let att_idx = 3 + (session_num - 1) * 2
      in if att_idx < length row then PStr (row ! att_idx) else PNone)"

definition session_presence :: "string list \<Rightarrow> (string \<times> pyval) list" where
  "session_presence row =
     map (\<lambda>session_num.
            (SESSION_PREFIX @ str_nat session_num,
             PBool (normalize_presence (presence_cell row session_num))))
         [1..<5]"

definition clean_row :: "string list \<Rightarrow> (string \<times> pyval) list" where
  "clean_row row =
     [(''Roll No.'', PStr (strip (row ! 0))),
      (''Name'', PStr (strip (row ! 1))),
      (''Surname'', PStr (strip (row ! 2)))] @ session_presence row"

definition data_rows :: "nat \<Rightarrow> string list list \<Rightarrow> string list list" where
  "data_rows header_idx csv_rows =
     filter (\<lambda>row. \<not> (row = [] \<or> length row < 3)) (drop (header_idx + 3) csv_rows)"

definition load_attendance :: "string list list \<Rightarrow> error + dataframe" where
  "load_attendance csv_rows =
     (case find_header 0 csv_rows of
        None \<Rightarrow> Inl Header_not_found
      | Some header_idx \<Rightarrow>
          let cleaned = map clean_row (data_rows header_idx csv_rows);
              df = df_from_records cleaned
          in if ''Roll No.'' \<in> set (columns df)
             then Inr (df_set_column df ROLL_NUM_KEY
                         (\<lambda>r. key_cell (extract_roll_number (cell r ''Roll No.''))))
             else Inl (Missing_column ''Roll No.''))"

section \<open>Session Marker\<close>

fun first_alias_match :: "string list \<Rightarrow> string list \<Rightarrow> string option" where
  "first_alias_match [] cols = None"
| "first_alias_match (alias # aliases) cols =
     (case List.find (\<lambda>col. lower (strip col) = lower (strip alias)) cols of
        Some col \<Rightarrow> Some col
      | None \<Rightarrow> first_alias_match aliases cols)"

definition find_roll_column :: "string list \<Rightarrow> string option" where
  "find_roll_column cols =
     (case first_alias_match ROLL_ALIASES cols of
        Some col \<Rightarrow> Some col
      | None \<Rightarrow> List.find (\<lambda>col. contains ''roll'' (lower (strip col))) cols)"

text \<open>
  \<open>attendance_df.set_index("__roll_num_key")[session_col].to_dict()\<close>: the index column
  leaves the columns, and the dictionary is filled row by row, so a later row with the
  same key replaces an earlier one.
\<close>

definition attendance_map :: "dataframe \<Rightarrow> string \<Rightarrow> error + (pyval \<rightharpoonup> pyval)" where
  "attendance_map attendance_df session_col =
     (if ROLL_NUM_KEY \<notin> set (columns attendance_df) then Inl (Missing_column ROLL_NUM_KEY)
      else if session_col \<notin> set (filter (\<lambda>c. c \<noteq> ROLL_NUM_KEY) (columns attendance_df))
      then Inl (Missing_column session_col)
      else Inr (fold (\<lambda>r m. m(cell r ROLL_NUM_KEY \<mapsto> cell r session_col))
                     (rows attendance_df) Map.empty))"

definition ensure_column :: "string \<Rightarrow> dataframe \<Rightarrow> dataframe" where
  "ensure_column c df = (if c \<notin> set (columns df) then df_set_column df c (\<lambda>_. PInt 0) else df)"

text \<open>The integer in a cell that the loop has just stored, for the sum of the total.\<close>

definition cell_int :: "pyval \<Rightarrow> int" where
  "cell_int v = (case v of PInt n \<Rightarrow> n | _ \<Rightarrow> 0)"

text \<open>The body of the \<open>iterrows\<close> loop, on one row.\<close>

definition mark_row :: "(pyval \<rightharpoonup> pyval) \<Rightarrow> row \<Rightarrow> row" where
  "mark_row amap r =
     (let key = (case r ROLL_NUM_KEY of Some k \<Rightarrow> k | None \<Rightarrow> PNone)
      in if key = PNone \<or> isna key then r
         else (case amap key of
                 None \<Rightarrow> r
               | Some v \<Rightarrow>
                   let present = normalize_presence v;
                       r1 = fold (\<lambda>(param, mark) r'. r'(param \<mapsto> PInt (if present then mark else 0)))
                                 PARAM_MARKS r;
                       total_score = sum_list (map (\<lambda>(param, mark). cell_int (cell r1 param)) PARAM_MARKS)
                   in r1(TOTAL_COL_NAME \<mapsto> PInt total_score)))"

text \<open>The columns the loop writes: the rubric parameters, then the total.\<close>

definition mark_columns :: "string list" where
  "mark_columns = map fst PARAM_MARKS @ [TOTAL_COL_NAME]"

text \<open>
  \<open>process_experiment\<close> between reading the workbook and writing it: the table
  transformation.
\<close>

definition process_table :: "dataframe \<Rightarrow> dataframe \<Rightarrow> string \<Rightarrow> error + dataframe" where
  "process_table exp_df attendance_df session_col =
     (case find_roll_column (columns exp_df) of
        None \<Rightarrow> Inl No_roll_column
      | Some roll_col \<Rightarrow>
          let df1 = df_set_column exp_df ROLL_NUM_KEY
                      (\<lambda>r. key_cell (extract_roll_number (cell r roll_col)))
          in if session_col \<notin> set (columns attendance_df) then Inl (Session_not_found session_col)
             else (case attendance_map attendance_df session_col of
                     Inl e \<Rightarrow> Inl e
                   | Inr amap \<Rightarrow>
                       let df2 = fold (\<lambda>(param, mark). ensure_column param) PARAM_MARKS df1;
                           df3 = ensure_column TOTAL_COL_NAME df2;
                           df4 = \<lparr>columns = columns df3, rows = map (mark_row amap) (rows df3)\<rparr>
                       in Inr (df_drop_column df4 ROLL_NUM_KEY)))"

text \<open>
  For the proofs: what the transformation makes of one row of a table with columns
  \<open>cols\<close> whose roll column is \<open>roll_col\<close>. The key is stored in the helper column,
  the missing mark columns are filled with 0, the loop body runs, the helper column goes.
  Lemma \<open>process_table_result\<close> shows that \<open>process_table\<close> computes exactly this.
\<close>

definition marked_row :: "string \<Rightarrow> (pyval \<rightharpoonup> pyval) \<Rightarrow> string list \<Rightarrow> row \<Rightarrow> row" where
  "marked_row roll_col amap cols r =
     (let r1 = r(ROLL_NUM_KEY \<mapsto> key_cell (extract_roll_number (cell r roll_col)));
          r3 = (\<lambda>x. if x \<in> set mark_columns \<and> x \<notin> set cols then Some (PInt 0) else r1 x)
      in (mark_row amap r3)(ROLL_NUM_KEY := None))"

section \<open>Files and the batch run\<close>


















section \<open>Sample data\<close>

text \<open>
  An attendance sheet with its header in the third row, two sub-header rows, a blank row
  among the data, and roll 15 entered twice; and score tables for it.
\<close>

definition sample_csv :: "string list list" where
  "sample_csv =
     [[''Lab attendance''],
      [],
      [''Roll No.'', ''Name'', ''Surname'', ''Session 1'', ''Time'', ''Session 2'', ''Time''],
      [''Attendance'', ''Time''],
      [],
      [''14'', ''Jane'', ''Doe'', ''P'', ''09:00'', ''A'', ''09:05''],
      [],
      [''CS-015'', ''Bob'', ''Roe'', ''0'', ''-'', ''yes''],
      [''15'', ''Bob'', ''Roe'', ''yes'', ''-'', ''P'']]"

definition sample_attendance :: dataframe where
  "sample_attendance = projr (load_attendance sample_csv)"

definition sample_table :: dataframe where
  "sample_table =
     \<lparr>columns = [''Roll No'', ''Name'', ''Total''],
      rows = [[''Roll No'' \<mapsto> PStr ''CS-014'', ''Name'' \<mapsto> PStr ''Jane'', ''Total'' \<mapsto> PInt 3],
              [''Roll No'' \<mapsto> PInt 15, ''Name'' \<mapsto> PStr ''Bob'', ''Total'' \<mapsto> PInt 7],
              [''Roll No'' \<mapsto> PStr ''absent'', ''Name'' \<mapsto> PStr ''Al'', ''Total'' \<mapsto> PInt 5],
              [''Roll No'' \<mapsto> PInt 99, ''Name'' \<mapsto> PStr ''Cy'', ''Total'' \<mapsto> PInt 6]]\<rparr>"


definition sample_table_helper_roll :: dataframe where
  "sample_table_helper_roll =
     \<lparr>columns = [''__roll_num_key'', ''Enrollment''],
      rows = [[''__roll_num_key'' \<mapsto> PStr ''14'', ''Enrollment'' \<mapsto> PStr ''15'']]\<rparr>"



section \<open>Evaluating characters\<close>

lemma char_of_eval [simp]:
  "char_of (numeral k :: nat) =
     Char (odd (numeral k :: nat)) (odd (numeral k div 2 :: nat)) (odd (numeral k div 4 :: nat))
          (odd (numeral k div 8 :: nat)) (odd (numeral k div 16 :: nat)) (odd (numeral k div 32 :: nat))
          (odd (numeral k div 64 :: nat)) (odd (numeral k div 128 :: nat))"
  by (simp add: char_of_def bit_iff_odd)

section \<open>The normalised key\<close>

lemma re_search_digits_skip:
  "\<forall>c\<in>set pre. \<not> isdigit c \<Longrightarrow> re_search_digits (pre @ s) = re_search_digits s"
  by (induction pre) auto

lemma re_search_digits_none: "\<forall>c\<in>set s. \<not> isdigit c \<Longrightarrow> re_search_digits s = None"
  by (induction s) auto

lemma takeWhile_run:
  "\<forall>c\<in>set ds. P c \<Longrightarrow> post = [] \<or> \<not> P (hd post) \<Longrightarrow> takeWhile P (ds @ post) = ds"
  by (cases post) auto

lemma re_search_digits_run:
  assumes "ds \<noteq> []" "\<forall>c\<in>set ds. isdigit c" "post = [] \<or> \<not> isdigit (hd post)"
  shows "re_search_digits (ds @ post) = Some ds"
proof -
  obtain d ds' where ds: "ds = d # ds'" using assms(1) by (cases ds) auto
  have "takeWhile isdigit (ds @ post) = ds" using assms(2,3) by (rule takeWhile_run)
  then show ?thesis using assms(2) by (simp add: ds)
qed

text \<open>The value of a digit string is read most significant digit first.\<close>

lemma decimal_value_snoc: "decimal_value (ds @ [c]) = 10 * decimal_value ds + digit_val c"
  by (simp add: decimal_value_def)

text \<open>
  C7. For a roll token \<open>pre @ ds @ post\<close>, where \<open>pre\<close> has no digit, \<open>ds\<close> is a
  non-empty run of digits and \<open>post\<close> is empty or starts with a non-digit,
  \<open>extract_roll_number\<close> returns the decimal value of \<open>ds\<close>, the first run of digits.
  For a token without any digit it returns no key. "CS-014" and "014" give 14, and
  "absent" gives no key.
\<close>

theorem extract_roll_number_first_digit_run:
  "((\<forall>c\<in>set pre. \<not> isdigit c) \<and> ds \<noteq> [] \<and> (\<forall>c\<in>set ds. isdigit c)
       \<and> (post = [] \<or> \<not> isdigit (hd post))
      \<longrightarrow> extract_roll_number (PStr (pre @ ds @ post)) = Some (decimal_value ds))
   \<and> ((\<forall>c\<in>set s. \<not> isdigit c) \<longrightarrow> extract_roll_number (PStr s) = None)
   \<and> extract_roll_number (PStr ''CS-014'') = Some 14
   \<and> extract_roll_number (PStr ''014'') = Some 14
   \<and> extract_roll_number (PStr ''absent'') = None"
proof (intro conjI impI)
  assume h: "(\<forall>c\<in>set pre. \<not> isdigit c) \<and> ds \<noteq> [] \<and> (\<forall>c\<in>set ds. isdigit c)
               \<and> (post = [] \<or> \<not> isdigit (hd post))"
  then have "re_search_digits (pre @ ds @ post) = Some ds"
    by (simp add: re_search_digits_skip re_search_digits_run)
  moreover have "py_int ds = Some (decimal_value ds)"
    using h by (simp add: py_int_def list_all_iff)
  ultimately show "extract_roll_number (PStr (pre @ ds @ post)) = Some (decimal_value ds)"
    by (simp add: extract_roll_number_def isna_def)
next
  assume "\<forall>c\<in>set s. \<not> isdigit c"
  then show "extract_roll_number (PStr s) = None"
    by (simp add: extract_roll_number_def isna_def re_search_digits_none)
next
  show "extract_roll_number (PStr ''CS-014'') = Some 14"
    by (simp add: extract_roll_number_def isna_def isdigit_def py_int_def decimal_value_def
        digit_val_def)
  show "extract_roll_number (PStr ''014'') = Some 14"
    by (simp add: extract_roll_number_def isna_def isdigit_def py_int_def decimal_value_def
        digit_val_def)
  show "extract_roll_number (PStr ''absent'') = None"
    by (simp add: extract_roll_number_def isna_def isdigit_def py_int_def decimal_value_def
        digit_val_def)
qed

theorem extract_roll_number_first_digit_run_witness:
  "list_all (\<lambda>c. \<not> isdigit c) ''CS-'' \<and> ''014'' \<noteq> [] \<and> list_all isdigit ''014''
   \<and> \<not> isdigit (hd ''/A'')
   \<and> extract_roll_number (PStr (''CS-'' @ ''014'' @ ''/A'')) = Some 14
   \<and> list_all (\<lambda>c. \<not> isdigit c) ''absent''
   \<and> extract_roll_number (PStr ''absent'') = None"
  using extract_roll_number_first_digit_run [of "''CS-''" "''014''" "''/A''" "''absent''"]
  by (simp add: isdigit_def decimal_value_def digit_val_def)

section \<open>Presence\<close>

lemma sessions_upt: "[1..<5] = [1, 2, 3, 4::nat]"
  by code_simp

lemma session_labels:
  "SESSION_PREFIX @ str_nat 1 = ''Session 1''" "SESSION_PREFIX @ str_nat 2 = ''Session 2''"
  "SESSION_PREFIX @ str_nat 3 = ''Session 3''" "SESSION_PREFIX @ str_nat 4 = ''Session 4''"
  by (simp_all add: SESSION_PREFIX_def str_nat.simps digit_char_def)

lemma session_presence_eval:
  "session_presence row =
     [(''Session 1'', PBool (normalize_presence (presence_cell row 1))),
      (''Session 2'', PBool (normalize_presence (presence_cell row 2))),
      (''Session 3'', PBool (normalize_presence (presence_cell row 3))),
      (''Session 4'', PBool (normalize_presence (presence_cell row 4)))]"
  by (simp only: session_presence_def sessions_upt list.map session_labels)

text \<open>
  C8. \<open>normalize_presence\<close> is false for None, the truth value of a bool, and true for
  a number exactly when it is not zero; for a string it is true exactly when the string,
  trimmed and lower-cased, is one of p, present, yes, y, 1, attended, true. So "P", "Yes",
  "1", 1.0 and "attended" give true, and "", "0", 0, "absent" and None give false. For a
  session 1 to 4 whose column index \<open>3 + (session_num - 1) * 2\<close> is outside a short
  attendance row, the presence cell is None and the session is recorded as absent.
\<close>

theorem normalize_presence_vocabulary:
  "normalize_presence PNone = False
   \<and> normalize_presence (PBool b) = b
   \<and> normalize_presence (PInt i) = (i \<noteq> 0)
   \<and> normalize_presence (PFloat (FFin q txt)) = (q \<noteq> 0)
   \<and> normalize_presence (PStr s) =
       (lower (strip s) \<in> {''p'', ''present'', ''yes'', ''y'', ''1'', ''attended'', ''true''})
   \<and> normalize_presence (PStr ''P'') \<and> normalize_presence (PStr ''Yes'')
   \<and> normalize_presence (PStr ''1'') \<and> normalize_presence (PFloat (FFin 1 ''1.0''))
   \<and> normalize_presence (PStr ''attended'')
   \<and> \<not> normalize_presence (PStr '''') \<and> \<not> normalize_presence (PStr ''0'')
   \<and> \<not> normalize_presence (PInt 0) \<and> \<not> normalize_presence (PStr ''absent'')
   \<and> (1 \<le> session_num \<and> session_num \<le> 4 \<and> length row \<le> 3 + (session_num - 1) * 2
        \<longrightarrow> presence_cell row session_num = PNone
          \<and> map_of (session_presence row) (SESSION_PREFIX @ str_nat session_num) = Some (PBool False))"
proof -
  have ex: "normalize_presence (PStr ''P'')" "normalize_presence (PStr ''Yes'')"
    "normalize_presence (PStr ''1'')" "normalize_presence (PStr ''attended'')"
    "\<not> normalize_presence (PStr '''')" "\<not> normalize_presence (PStr ''0'')"
    "\<not> normalize_presence (PStr ''absent'')"
    by (simp_all add: strip_def lower_def lower_char_def isspace_def truthy_tokens_def)
  have short: "presence_cell row session_num = PNone
          \<and> map_of (session_presence row) (SESSION_PREFIX @ str_nat session_num) = Some (PBool False)"
    if h: "1 \<le> session_num \<and> session_num \<le> 4 \<and> length row \<le> 3 + (session_num - 1) * 2"
  proof -
    have pc: "presence_cell row session_num = PNone"
      using h by (simp add: presence_cell_def Let_def)
    from h have "session_num = 1 \<or> session_num = 2 \<or> session_num = 3 \<or> session_num = 4"
      by arith
    then have "map_of (session_presence row) (SESSION_PREFIX @ str_nat session_num)
                 = Some (PBool (normalize_presence (presence_cell row session_num)))"
      using session_labels by (auto simp: session_presence_eval)
    with pc show ?thesis by simp
  qed
  show ?thesis
    using ex short by (simp add: truthy_tokens_def)
qed

theorem normalize_presence_vocabulary_witness:
  "(1::nat) \<le> 3 \<and> (3::nat) \<le> 4 \<and> length [''14'', ''Jane'', ''Doe'', ''P'', ''09:00''] \<le> 3 + (3 - 1) * 2
   \<and> presence_cell [''14'', ''Jane'', ''Doe'', ''P'', ''09:00''] 3 = PNone
   \<and> map_of (session_presence [''14'', ''Jane'', ''Doe'', ''P'', ''09:00'']) ''Session 3'' = Some (PBool False)
   \<and> normalize_presence (PStr '' Present '') = True
   \<and> normalize_presence (PFloat (FFin 0 ''0.0'')) = False"
  using normalize_presence_vocabulary [of True 0 0 "''0.0''" "'' Present ''" 3 "[''14'', ''Jane'', ''Doe'', ''P'', ''09:00'']"]
  by (simp add: SESSION_PREFIX_def str_nat.simps digit_char_def strip_def lower_def lower_char_def isspace_def)

section \<open>The table transformation\<close>

lemma ensure_column_rows:
  "rows (ensure_column c df) =
     map (\<lambda>r. if c \<in> set (columns df) then r else r(c \<mapsto> PInt 0)) (rows df)"
  by (simp add: ensure_column_def df_set_column_def)

lemma ensure_column_columns:
  "columns (ensure_column c df) = (if c \<in> set (columns df) then columns df else columns df @ [c])"
  by (simp add: ensure_column_def df_set_column_def)

lemma fold_ensure_rows:
  "rows (fold ensure_column cs df) =
     map (\<lambda>r x. if x \<in> set cs \<and> x \<notin> set (columns df) then Some (PInt 0) else r x) (rows df)"
proof (induction cs arbitrary: df)
  case Nil
  show ?case by simp
next
  case (Cons c cs)
  show ?case
    by (simp add: Cons.IH ensure_column_rows ensure_column_columns fun_eq_iff)
qed

lemma prepared_fold:
  "ensure_column TOTAL_COL_NAME (fold (\<lambda>(param, mark). ensure_column param) PARAM_MARKS df)
     = fold ensure_column mark_columns df"
  by (simp add: mark_columns_def PARAM_MARKS_def)

lemma mark_columns_eval:
  "mark_columns = [''Timely completion, punctuality'', ''Performance, involvement, efficiency'',
     ''Oral Presentation'', ''Documentation, neatness'', ''Total'']"
  by (simp add: mark_columns_def PARAM_MARKS_def TOTAL_COL_NAME_def)

lemma key_not_mark_column: "ROLL_NUM_KEY \<notin> set mark_columns"
  by (simp add: mark_columns_eval ROLL_NUM_KEY_def)

text \<open>The loop body, case by case.\<close>

lemma mark_row_no_key: "r ROLL_NUM_KEY = Some PNone \<Longrightarrow> mark_row amap r = r"
  by (simp add: mark_row_def)

lemma mark_row_unknown_key:
  "r ROLL_NUM_KEY = Some (PInt k) \<Longrightarrow> amap (PInt k) = None \<Longrightarrow> mark_row amap r = r"
  by (simp add: mark_row_def isna_def)

lemma mark_row_known_key:
  assumes "r ROLL_NUM_KEY = Some (PInt k)" "amap (PInt k) = Some v"
  shows "mark_row amap r =
           r(''Timely completion, punctuality'' \<mapsto> PInt (if normalize_presence v then 2 else 0),
             ''Performance, involvement, efficiency'' \<mapsto> PInt (if normalize_presence v then 4 else 0),
             ''Oral Presentation'' \<mapsto> PInt (if normalize_presence v then 3 else 0),
             ''Documentation, neatness'' \<mapsto> PInt (if normalize_presence v then 1 else 0),
             ''Total'' \<mapsto> PInt (if normalize_presence v then 10 else 0))"
  using assms
  by (simp add: mark_row_def isna_def PARAM_MARKS_def TOTAL_COL_NAME_def cell_def cell_int_def Let_def)

lemma attendance_map_Inr_session:
  "attendance_map att s = Inr amap \<Longrightarrow> s \<in> set (columns att)"
  by (auto simp: attendance_map_def split: if_splits)

lemma process_table_result:
  assumes "find_roll_column (columns t) = Some rc" "attendance_map att s = Inr amap"
  shows "process_table t att s =
           Inr \<lparr>columns = filter (\<lambda>x. x \<noteq> ROLL_NUM_KEY)
                              (columns (fold ensure_column mark_columns
                                 (df_set_column t ROLL_NUM_KEY
                                    (\<lambda>r. key_cell (extract_roll_number (cell r rc)))))),
                 rows = map (marked_row rc amap (columns t)) (rows t)\<rparr>"
proof -
  let ?df1 = "df_set_column t ROLL_NUM_KEY (\<lambda>r. key_cell (extract_roll_number (cell r rc)))"
  have mem: "x \<in> set mark_columns \<and> x \<notin> set (columns ?df1) \<longleftrightarrow> x \<in> set mark_columns \<and> x \<notin> set (columns t)" for x
    using key_not_mark_column by (auto simp: df_set_column_def)
  have r1: "rows ?df1 = map (\<lambda>r. r(ROLL_NUM_KEY \<mapsto> key_cell (extract_roll_number (cell r rc)))) (rows t)"
    by (simp add: df_set_column_def)
  have r3: "rows (fold ensure_column mark_columns ?df1) =
              map (\<lambda>r x. if x \<in> set mark_columns \<and> x \<notin> set (columns t) then Some (PInt 0) else r x)
                  (rows ?df1)"
    by (simp add: fold_ensure_rows mem)
  have rws: "map (\<lambda>r. (mark_row amap r)(ROLL_NUM_KEY := None)) (rows (fold ensure_column mark_columns ?df1))
               = map (marked_row rc amap (columns t)) (rows t)"
    by (simp add: r3 r1 marked_row_def Let_def comp_def)
  show ?thesis
    using assms attendance_map_Inr_session [OF assms(2)]
    by (simp add: process_table_def Let_def prepared_fold df_drop_column_def comp_def rws)
qed

lemma distinct_mark_columns: "distinct mark_columns"
  by (simp add: mark_columns_eval)

lemma filter_absent:
  "c \<notin> set cs \<Longrightarrow> filter (\<lambda>x. x \<noteq> c \<and> P x) cs = filter P cs"
  "c \<notin> set cs \<Longrightarrow> filter (\<lambda>x. P x \<and> x \<noteq> c) cs = filter P cs"
  by (induction cs) auto

lemma fold_ensure_columns_exact:
  "distinct cs \<Longrightarrow>
     columns (fold ensure_column cs df) = columns df @ filter (\<lambda>c. c \<notin> set (columns df)) cs"
proof (induction cs arbitrary: df)
  case Nil
  show ?case by simp
next
  case (Cons c cs)
  then have c: "c \<notin> set cs" and d: "distinct cs" by auto
  show ?case
  proof (cases "c \<in> set (columns df)")
    case True
    then show ?thesis using Cons.IH [OF d, of df] by (simp add: ensure_column_def)
  next
    case False
    show ?thesis
      using False c Cons.IH [OF d, of "ensure_column c df"]
      by (simp add: ensure_column_columns filter_absent)
  qed
qed

lemma process_table_columns:
  assumes "find_roll_column (columns t) = Some rc" "attendance_map att s = Inr amap"
  shows "\<exists>t'. process_table t att s = Inr t'
           \<and> columns t' = filter (\<lambda>x. x \<noteq> ROLL_NUM_KEY) (columns t)
                            @ filter (\<lambda>c. c \<notin> set (columns t)) mark_columns
           \<and> rows t' = map (marked_row rc amap (columns t)) (rows t)"
proof -
  let ?df1 = "df_set_column t ROLL_NUM_KEY (\<lambda>r. key_cell (extract_roll_number (cell r rc)))"
  have "filter (\<lambda>c. c \<notin> set (columns ?df1)) mark_columns = filter (\<lambda>c. c \<notin> set (columns t)) mark_columns"
    using key_not_mark_column by (intro filter_cong) (auto simp: df_set_column_def)
  moreover have "filter (\<lambda>x. x \<noteq> ROLL_NUM_KEY) (filter (\<lambda>c. c \<notin> set (columns t)) mark_columns)
                   = filter (\<lambda>c. c \<notin> set (columns t)) mark_columns"
    using key_not_mark_column by (simp add: filter_absent)
  moreover have "filter (\<lambda>x. x \<noteq> ROLL_NUM_KEY) (columns ?df1) = filter (\<lambda>x. x \<noteq> ROLL_NUM_KEY) (columns t)"
    by (simp add: df_set_column_def)
  ultimately show ?thesis
    by (simp add: process_table_result [OF assms] fold_ensure_columns_exact [OF distinct_mark_columns])
qed

lemma marked_row_known_key:
  assumes "extract_roll_number (cell r rc) = Some k" "amap (PInt k) = Some v"
  shows "marked_row rc amap cols r =
           (\<lambda>x. if x = ROLL_NUM_KEY then None
                 else if x = ''Timely completion, punctuality'' then Some (PInt (if normalize_presence v then 2 else 0))
                 else if x = ''Performance, involvement, efficiency'' then Some (PInt (if normalize_presence v then 4 else 0))
                 else if x = ''Oral Presentation'' then Some (PInt (if normalize_presence v then 3 else 0))
                 else if x = ''Documentation, neatness'' then Some (PInt (if normalize_presence v then 1 else 0))
                 else if x = ''Total'' then Some (PInt (if normalize_presence v then 10 else 0))
                 else r x)"
proof -
  let ?r3 = "\<lambda>x. if x \<in> set mark_columns \<and> x \<notin> set cols then Some (PInt 0)
                  else (r(ROLL_NUM_KEY \<mapsto> key_cell (extract_roll_number (cell r rc)))) x"
  have k: "?r3 ROLL_NUM_KEY = Some (PInt k)"
    using assms(1) key_not_mark_column by (simp add: key_cell_def)
  have "marked_row rc amap cols r = (mark_row amap ?r3)(ROLL_NUM_KEY := None)"
    by (simp add: marked_row_def Let_def)
  then show ?thesis
    unfolding mark_row_known_key [where r = "?r3" and k = k and amap = amap and v = v, OF k assms(2)]
    by (simp add: fun_eq_iff mark_columns_eval ROLL_NUM_KEY_def)
qed

lemma marked_row_unchanged:
  assumes "case extract_roll_number (cell r rc) of None \<Rightarrow> True | Some k \<Rightarrow> amap (PInt k) = None"
  shows "marked_row rc amap cols r =
           (\<lambda>x. if x = ROLL_NUM_KEY then None
                 else if x \<in> set mark_columns \<and> x \<notin> set cols then Some (PInt 0)
                 else r x)"
proof -
  let ?r3 = "\<lambda>x. if x \<in> set mark_columns \<and> x \<notin> set cols then Some (PInt 0)
                  else (r(ROLL_NUM_KEY \<mapsto> key_cell (extract_roll_number (cell r rc)))) x"
  have "mark_row amap ?r3 = ?r3"
  proof (cases "extract_roll_number (cell r rc)")
    case None
    then have "?r3 ROLL_NUM_KEY = Some PNone"
      using key_not_mark_column by (simp add: key_cell_def)
    then show ?thesis by (rule mark_row_no_key)
  next
    case (Some k)
    then have "?r3 ROLL_NUM_KEY = Some (PInt k)" "amap (PInt k) = None"
      using assms key_not_mark_column by (simp_all add: key_cell_def)
    then show ?thesis by (rule mark_row_unknown_key)
  qed
  then show ?thesis
    by (simp add: marked_row_def Let_def fun_eq_iff)
qed

section \<open>The sample data evaluated\<close>

lemma sample_header: "find_header 0 sample_csv = Some 2"
  by (simp add: sample_csv_def is_header_row_def strip_def lower_def lower_char_def isspace_def
      startswith_def)

lemma sample_data_rows:
  "data_rows 2 sample_csv =
     [[''14'', ''Jane'', ''Doe'', ''P'', ''09:00'', ''A'', ''09:05''],
      [''CS-015'', ''Bob'', ''Roe'', ''0'', ''-'', ''yes''],
      [''15'', ''Bob'', ''Roe'', ''yes'', ''-'', ''P'']]"
  by (simp add: sample_csv_def data_rows_def)

lemma sample_attendance_columns:
  "columns sample_attendance =
     [''Roll No.'', ''Name'', ''Surname'', ''Session 1'', ''Session 2'', ''Session 3'',
      ''Session 4'', ''__roll_num_key'']"
  by (simp add: sample_attendance_def load_attendance_def sample_header sample_data_rows
      df_from_records_def clean_row_def session_presence_eval df_set_column_def ROLL_NUM_KEY_def)

lemma sample_attendance_keys:
  "map (\<lambda>r. cell r ROLL_NUM_KEY) (rows sample_attendance) = [PInt 14, PInt 15, PInt 15]"
  by (simp add: sample_attendance_def load_attendance_def sample_header sample_data_rows
      df_from_records_def clean_row_def session_presence_eval df_set_column_def ROLL_NUM_KEY_def
      cell_def key_cell_def extract_roll_number_def isna_def isdigit_def py_int_def
      decimal_value_def digit_val_def strip_def isspace_def)

lemma sample_attendance_session_1:
  "map (\<lambda>r. cell r ''Session 1'') (rows sample_attendance) = [PBool True, PBool False, PBool True]"
  by (simp add: sample_attendance_def load_attendance_def sample_header sample_data_rows
      df_from_records_def clean_row_def session_presence_eval df_set_column_def ROLL_NUM_KEY_def
      cell_def presence_cell_def strip_def isspace_def lower_def lower_char_def truthy_tokens_def)

lemma sample_attendance_session_2:
  "map (\<lambda>r. cell r ''Session 2'') (rows sample_attendance) = [PBool False, PBool True, PBool True]"
  by (simp add: sample_attendance_def load_attendance_def sample_header sample_data_rows
      df_from_records_def clean_row_def session_presence_eval df_set_column_def ROLL_NUM_KEY_def
      cell_def presence_cell_def strip_def isspace_def lower_def lower_char_def truthy_tokens_def)

lemma attendance_map_fold:
  "fold (\<lambda>r m. m(kf r \<mapsto> vf r)) rs m = fold (\<lambda>(k, v) m. m(k \<mapsto> v)) (zip (map kf rs) (map vf rs)) m"
  by (induction rs arbitrary: m) auto

lemma sample_attendance_map_1:
  "attendance_map sample_attendance ''Session 1'' = Inr [PInt 14 \<mapsto> PBool True, PInt 15 \<mapsto> PBool True]"
  by (simp add: attendance_map_def sample_attendance_columns ROLL_NUM_KEY_def attendance_map_fold
      sample_attendance_keys [unfolded ROLL_NUM_KEY_def] sample_attendance_session_1)

lemma sample_attendance_map_2:
  "attendance_map sample_attendance ''Session 2'' = Inr [PInt 14 \<mapsto> PBool False, PInt 15 \<mapsto> PBool True]"
  by (simp add: attendance_map_def sample_attendance_columns ROLL_NUM_KEY_def attendance_map_fold
      sample_attendance_keys [unfolded ROLL_NUM_KEY_def] sample_attendance_session_2)

lemma sample_roll_column: "find_roll_column (columns sample_table) = Some ''Roll No''"
  by (simp add: sample_table_def find_roll_column_def ROLL_ALIASES_def strip_def lower_def
      lower_char_def isspace_def)

section \<open>Rows with a known key\<close>




section \<open>Rows without a known key\<close>





section \<open>The helper column\<close>




section \<open>Running the marker twice\<close>

lemma find_filter_other:
  "List.find Q cols \<noteq> Some K \<Longrightarrow> List.find Q (filter (\<lambda>x. x \<noteq> K) cols) = List.find Q cols"
  by (induction cols) auto

lemma find_append_none:
  "\<forall>e\<in>set extras. \<not> Q e \<Longrightarrow> List.find Q (cols @ extras) = List.find Q cols"
  by (induction cols) (auto simp: find_None_iff)

lemma find_not_satisfying: "\<not> Q K \<Longrightarrow> List.find Q cols \<noteq> Some K"
  by (auto simp: find_Some_iff)

lemma first_alias_match_stable:
  assumes "\<forall>a\<in>set aliases. lower (strip K) \<noteq> lower (strip a)"
    and "\<forall>a\<in>set aliases. \<forall>e\<in>set extras. lower (strip e) \<noteq> lower (strip a)"
  shows "first_alias_match aliases (filter (\<lambda>x. x \<noteq> K) cols @ extras) = first_alias_match aliases cols"
  using assms
proof (induction aliases)
  case Nil
  show ?case by simp
next
  case (Cons a aliases)
  let ?Q = "\<lambda>col. lower (strip col) = lower (strip a)"
  have "List.find ?Q (filter (\<lambda>x. x \<noteq> K) cols @ extras) = List.find ?Q (filter (\<lambda>x. x \<noteq> K) cols)"
    using Cons.prems(2) by (intro find_append_none) auto
  also have "\<dots> = List.find ?Q cols"
    using Cons.prems(1) by (intro find_filter_other find_not_satisfying) auto
  finally show ?case using Cons by (simp split: option.splits)
qed

lemma first_alias_match_Some:
  "first_alias_match aliases cols = Some c \<Longrightarrow>
     c \<in> set cols \<and> (\<exists>a\<in>set aliases. lower (strip c) = lower (strip a))"
  by (induction aliases) (auto simp: find_Some_iff split: option.splits)

lemma mark_columns_not_roll:
  "e \<in> set mark_columns \<Longrightarrow>
     \<not> contains ''roll'' (lower (strip e)) \<and> (\<forall>a\<in>set ROLL_ALIASES. lower (strip e) \<noteq> lower (strip a))"
  by (auto simp: mark_columns_eval ROLL_ALIASES_def strip_def lower_def lower_char_def isspace_def
      startswith_def)

lemma helper_not_alias: "\<forall>a\<in>set ROLL_ALIASES. lower (strip ROLL_NUM_KEY) \<noteq> lower (strip a)"
  by (simp add: ROLL_NUM_KEY_def ROLL_ALIASES_def strip_def lower_def lower_char_def isspace_def)

lemma find_roll_column_stable:
  assumes "find_roll_column cols \<noteq> Some ROLL_NUM_KEY" "set extras \<subseteq> set mark_columns"
  shows "find_roll_column (filter (\<lambda>x. x \<noteq> ROLL_NUM_KEY) cols @ extras) = find_roll_column cols"
proof -
  let ?cols' = "filter (\<lambda>x. x \<noteq> ROLL_NUM_KEY) cols @ extras"
  let ?Q = "\<lambda>col. contains ''roll'' (lower (strip col))"
  have al: "first_alias_match ROLL_ALIASES ?cols' = first_alias_match ROLL_ALIASES cols"
    using helper_not_alias assms(2) mark_columns_not_roll
    by (intro first_alias_match_stable) blast+
  show ?thesis
  proof (cases "first_alias_match ROLL_ALIASES cols")
    case (Some c)
    then show ?thesis by (simp add: find_roll_column_def al)
  next
    case None
    then have "List.find ?Q cols \<noteq> Some ROLL_NUM_KEY"
      using assms(1) by (simp add: find_roll_column_def)
    then have "List.find ?Q (filter (\<lambda>x. x \<noteq> ROLL_NUM_KEY) cols) = List.find ?Q cols"
      by (rule find_filter_other)
    moreover have "List.find ?Q ?cols' = List.find ?Q (filter (\<lambda>x. x \<noteq> ROLL_NUM_KEY) cols)"
      using assms(2) mark_columns_not_roll by (intro find_append_none) blast
    ultimately show ?thesis using None by (simp add: find_roll_column_def al)
  qed
qed

lemma find_roll_column_Some:
  assumes "find_roll_column cols = Some rc"
  shows "rc \<in> set cols \<and> rc \<notin> set mark_columns"
proof (cases "first_alias_match ROLL_ALIASES cols")
  case (Some c)
  then have "c = rc" using assms by (simp add: find_roll_column_def)
  then show ?thesis
    using first_alias_match_Some [OF Some] mark_columns_not_roll by blast
next
  case None
  then have "List.find (\<lambda>col. contains ''roll'' (lower (strip col))) cols = Some rc"
    using assms by (simp add: find_roll_column_def)
  then have "rc \<in> set cols \<and> contains ''roll'' (lower (strip rc))"
    by (auto simp: find_Some_iff)
  then show ?thesis using mark_columns_not_roll by blast
qed

lemma marked_row_other_column:
  "x \<noteq> ROLL_NUM_KEY \<Longrightarrow> x \<notin> set mark_columns \<Longrightarrow> marked_row rc amap cols r x = r x"
proof (cases "case extract_roll_number (cell r rc) of None \<Rightarrow> True | Some k \<Rightarrow> amap (PInt k) = None")
  case True
  assume "x \<noteq> ROLL_NUM_KEY" "x \<notin> set mark_columns"
  then show ?thesis by (simp add: marked_row_unchanged [OF True])
next
  case False
  assume x: "x \<noteq> ROLL_NUM_KEY" "x \<notin> set mark_columns"
  from False obtain k v where kv: "extract_roll_number (cell r rc) = Some k" "amap (PInt k) = Some v"
    by (auto split: option.splits)
  show ?thesis
    using x
    by (simp add: marked_row_known_key [where r = r and rc = rc and k = k and amap = amap and v = v, OF kv]
        mark_columns_eval)
qed

lemma marked_row_idem:
  assumes "rc \<noteq> ROLL_NUM_KEY" "rc \<notin> set mark_columns" "set mark_columns \<subseteq> set cols'"
  shows "marked_row rc amap cols' (marked_row rc amap cols r) = marked_row rc amap cols r"
proof -
  let ?r' = "marked_row rc amap cols r"
  have same: "cell ?r' rc = cell r rc"
    using assms(1,2) by (simp add: cell_def marked_row_other_column)
  show ?thesis
  proof (cases "case extract_roll_number (cell r rc) of None \<Rightarrow> True | Some k \<Rightarrow> amap (PInt k) = None")
    case True
    then have True': "case extract_roll_number (cell ?r' rc) of None \<Rightarrow> True | Some k \<Rightarrow> amap (PInt k) = None"
      by (simp add: same)
    have "marked_row rc amap cols' ?r' = (\<lambda>x. if x = ROLL_NUM_KEY then None else ?r' x)"
      unfolding marked_row_unchanged [OF True'] using assms(3) by (auto simp: fun_eq_iff)
    also have "\<dots> = ?r'"
      by (simp add: fun_eq_iff marked_row_unchanged [OF True])
    finally show ?thesis .
  next
    case False
    then obtain k v where kv: "extract_roll_number (cell r rc) = Some k" "amap (PInt k) = Some v"
      by (auto split: option.splits)
    then have kv': "extract_roll_number (cell ?r' rc) = Some k" "amap (PInt k) = Some v"
      by (simp_all add: same)
    show ?thesis
      unfolding marked_row_known_key [where r = "?r'" and rc = rc and k = k and amap = amap and v = v, OF kv']
      unfolding marked_row_known_key [where r = r and rc = rc and k = k and amap = amap and v = v, OF kv]
      by (simp add: fun_eq_iff)
  qed
qed

text \<open>
  C2, as amended. When the roll column that \<open>find_roll_column\<close> locates is not the helper
  column \<open>__roll_num_key\<close> itself, the table transformation of \<open>process_experiment\<close>
  is idempotent: for the same attendance data and session label it succeeds on its own
  output and returns that output unchanged.
\<close>

theorem process_experiment_idempotent:
  assumes "find_roll_column (columns t) = Some rc"
    and "rc \<noteq> ROLL_NUM_KEY"
    and "attendance_map att s = Inr amap"
  shows "\<exists>t'. process_table t att s = Inr t' \<and> process_table t' att s = Inr t'"
proof -
  let ?extras = "filter (\<lambda>c. c \<notin> set (columns t)) mark_columns"
  obtain t' where t': "process_table t att s = Inr t'"
    "columns t' = filter (\<lambda>x. x \<noteq> ROLL_NUM_KEY) (columns t) @ ?extras"
    "rows t' = map (marked_row rc amap (columns t)) (rows t)"
    using process_table_columns [OF assms(1,3)] by blast
  have rc: "rc \<in> set (columns t)" "rc \<notin> set mark_columns"
    using find_roll_column_Some [OF assms(1)] by simp_all
  have "find_roll_column (columns t') = find_roll_column (columns t)"
    unfolding t'(2) using assms(1,2) by (intro find_roll_column_stable) auto
  then have frc: "find_roll_column (columns t') = Some rc"
    using assms(1) by simp
  obtain t'' where t'': "process_table t' att s = Inr t''"
    "columns t'' = filter (\<lambda>x. x \<noteq> ROLL_NUM_KEY) (columns t')
                     @ filter (\<lambda>c. c \<notin> set (columns t')) mark_columns"
    "rows t'' = map (marked_row rc amap (columns t')) (rows t')"
    using process_table_columns [OF frc assms(3)] by blast
  have nokey: "ROLL_NUM_KEY \<notin> set (columns t')"
    using key_not_mark_column by (auto simp: t'(2))
  have marks: "set mark_columns \<subseteq> set (columns t')"
    using key_not_mark_column by (auto simp: t'(2))
  have "filter (\<lambda>c. c \<notin> set (columns t')) mark_columns = []"
    using marks by (auto simp: filter_empty_conv)
  moreover have "filter (\<lambda>x. x \<noteq> ROLL_NUM_KEY) (columns t') = columns t'"
    using nokey by (auto simp: filter_id_conv)
  ultimately have c: "columns t'' = columns t'"
    by (simp add: t''(2))
  have r: "rows t'' = rows t'"
    by (simp add: t''(3) t'(3) marked_row_idem [OF assms(2) rc(2) marks])
  have "t'' = t'" using c r by simp
  with t'(1) t''(1) show ?thesis by simp
qed

theorem process_experiment_idempotent_witness:
  "find_roll_column (columns sample_table) = Some ''Roll No''
   \<and> ''Roll No'' \<noteq> ROLL_NUM_KEY
   \<and> \<not> isl (process_table sample_table sample_attendance ''Session 1'')
   \<and> process_table (projr (process_table sample_table sample_attendance ''Session 1''))
         sample_attendance ''Session 1''
       = process_table sample_table sample_attendance ''Session 1''"
proof -
  have ne: "''Roll No'' \<noteq> ROLL_NUM_KEY" by (simp add: ROLL_NUM_KEY_def)
  obtain t' where "process_table sample_table sample_attendance ''Session 1'' = Inr t'"
    "process_table t' sample_attendance ''Session 1'' = Inr t'"
    using process_experiment_idempotent [OF sample_roll_column ne sample_attendance_map_1] by blast
  then show ?thesis using sample_roll_column ne by simp
qed

text \<open>
  C2 as stated fails for a table whose roll column is the helper column. In the sample
  the helper column holds roll 14 and a column Enrollment holds 15. The first run reads
  the key 14 from the helper column (absent in session 2: Total 0) and drops that column;
  the second run finds Enrollment as roll column, reads 15 (present) and sets Total to 10.
\<close>

lemma helper_roll_column:
  "find_roll_column (columns sample_table_helper_roll) = Some ROLL_NUM_KEY"
  by (simp add: sample_table_helper_roll_def find_roll_column_def ROLL_ALIASES_def ROLL_NUM_KEY_def
      strip_def lower_def lower_char_def isspace_def startswith_def)

lemma helper_roll_first_run:
  "\<exists>t'. process_table sample_table_helper_roll sample_attendance ''Session 2'' = Inr t'
      \<and> columns t' = ''Enrollment'' # mark_columns
      \<and> (\<exists>r. rows t' = [r] \<and> r ''Enrollment'' = Some (PStr ''15'') \<and> r ''Total'' = Some (PInt 0))"
proof -
  obtain t' where t': "process_table sample_table_helper_roll sample_attendance ''Session 2'' = Inr t'"
    "columns t' = filter (\<lambda>x. x \<noteq> ROLL_NUM_KEY) (columns sample_table_helper_roll)
                    @ filter (\<lambda>c. c \<notin> set (columns sample_table_helper_roll)) mark_columns"
    "rows t' = map (marked_row ROLL_NUM_KEY [PInt 14 \<mapsto> PBool False, PInt 15 \<mapsto> PBool True]
                      (columns sample_table_helper_roll)) (rows sample_table_helper_roll)"
    using process_table_columns [OF helper_roll_column sample_attendance_map_2] by blast
  let ?r = "[''__roll_num_key'' \<mapsto> PStr ''14'', ''Enrollment'' \<mapsto> PStr ''15'']"
  have k: "extract_roll_number (cell ?r ROLL_NUM_KEY) = Some 14"
    by (simp add: ROLL_NUM_KEY_def cell_def extract_roll_number_def isna_def isdigit_def py_int_def
        decimal_value_def digit_val_def)
  have l: "[PInt 14 \<mapsto> PBool False, PInt 15 \<mapsto> PBool True] (PInt 14) = Some (PBool False)"
    by simp
  note row = marked_row_known_key [where r = "?r" and rc = ROLL_NUM_KEY and k = 14 and v = "PBool False"
      and amap = "[PInt 14 \<mapsto> PBool False, PInt 15 \<mapsto> PBool True]", OF k l]
  have "columns t' = ''Enrollment'' # mark_columns"
    by (simp add: t'(2) sample_table_helper_roll_def ROLL_NUM_KEY_def mark_columns_eval)
  moreover have "rows t' = [marked_row ROLL_NUM_KEY [PInt 14 \<mapsto> PBool False, PInt 15 \<mapsto> PBool True]
                              (columns sample_table_helper_roll) ?r]"
    by (simp add: t'(3) sample_table_helper_roll_def)
  moreover have "marked_row ROLL_NUM_KEY [PInt 14 \<mapsto> PBool False, PInt 15 \<mapsto> PBool True]
                   (columns sample_table_helper_roll) ?r ''Enrollment'' = Some (PStr ''15'')"
    unfolding row by (simp add: ROLL_NUM_KEY_def)
  moreover have "marked_row ROLL_NUM_KEY [PInt 14 \<mapsto> PBool False, PInt 15 \<mapsto> PBool True]
                   (columns sample_table_helper_roll) ?r ''Total'' = Some (PInt 0)"
    unfolding row by (simp add: ROLL_NUM_KEY_def)
  ultimately show ?thesis
    using t'(1) by simp
qed

theorem process_experiment_idempotent_counterexample:
  "find_roll_column (columns sample_table_helper_roll) = Some ROLL_NUM_KEY
   \<and> \<not> isl (process_table sample_table_helper_roll sample_attendance ''Session 2'')
   \<and> (rows (projr (process_table sample_table_helper_roll sample_attendance ''Session 2'')) ! 0) ''Total''
       = Some (PInt 0)
   \<and> \<not> isl (process_table (projr (process_table sample_table_helper_roll sample_attendance ''Session 2''))
              sample_attendance ''Session 2'')
   \<and> (rows (projr (process_table
                      (projr (process_table sample_table_helper_roll sample_attendance ''Session 2''))
                      sample_attendance ''Session 2'')) ! 0) ''Total''
       = Some (PInt 10)
   \<and> process_table (projr (process_table sample_table_helper_roll sample_attendance ''Session 2''))
         sample_attendance ''Session 2''
       \<noteq> process_table sample_table_helper_roll sample_attendance ''Session 2''"
proof -
  obtain t' r where t': "process_table sample_table_helper_roll sample_attendance ''Session 2'' = Inr t'"
    "columns t' = ''Enrollment'' # mark_columns" "rows t' = [r]"
    "r ''Enrollment'' = Some (PStr ''15'')" "r ''Total'' = Some (PInt 0)"
    using helper_roll_first_run by blast
  have frc: "find_roll_column (columns t') = Some ''Enrollment''"
    by (simp add: t'(2) mark_columns_eval find_roll_column_def ROLL_ALIASES_def strip_def lower_def
        lower_char_def isspace_def startswith_def)
  obtain t'' where t'': "process_table t' sample_attendance ''Session 2'' = Inr t''"
    "rows t'' = map (marked_row ''Enrollment'' [PInt 14 \<mapsto> PBool False, PInt 15 \<mapsto> PBool True]
                       (columns t')) (rows t')"
    using process_table_columns [OF frc sample_attendance_map_2] by blast
  have k: "extract_roll_number (cell r ''Enrollment'') = Some 15"
    by (simp add: t'(4) cell_def extract_roll_number_def isna_def isdigit_def py_int_def
        decimal_value_def digit_val_def)
  have l: "[PInt 14 \<mapsto> PBool False, PInt 15 \<mapsto> PBool True] (PInt 15) = Some (PBool True)"
    by simp
  note row = marked_row_known_key [where r = r and rc = "''Enrollment''" and k = 15 and v = "PBool True"
      and amap = "[PInt 14 \<mapsto> PBool False, PInt 15 \<mapsto> PBool True]", OF k l]
  have "marked_row ''Enrollment'' [PInt 14 \<mapsto> PBool False, PInt 15 \<mapsto> PBool True] (columns t') r ''Total''
          = Some (PInt 10)"
    unfolding row by (simp add: ROLL_NUM_KEY_def)
  then have tot: "(rows t'' ! 0) ''Total'' = Some (PInt 10)"
    by (simp add: t''(2) t'(3))
  have "(rows t' ! 0) ''Total'' = Some (PInt 0)"
    by (simp add: t'(3,5))
  with tot have "t'' \<noteq> t'" by auto
  then show ?thesis
    using helper_roll_column t' t'' tot by simp
qed

section \<open>Duplicate rolls in the attendance sheet\<close>

lemma fold_update_other:
  "\<forall>r\<in>set rs. kf r \<noteq> k \<Longrightarrow> fold (\<lambda>r m. m(kf r \<mapsto> vf r)) rs m k = m k"
  by (induction rs arbitrary: m) auto

lemma fold_update_last:
  "\<forall>r'\<in>set post. kf r' \<noteq> kf r \<Longrightarrow>
     fold (\<lambda>r m. m(kf r \<mapsto> vf r)) (pre @ [r] @ post) m (kf r) = Some (vf r)"
  by (simp add: fold_update_other)

text \<open>
  C10. Let the lookup for a session be built from an attendance table in which a row
  \<open>r\<close> is followed by no row with the same key. Then the lookup maps the key of \<open>r\<close>
  to the session cell of \<open>r\<close>, whatever rows with that key come before \<open>r\<close>; and the
  loop body, on any score row with that key, does what it would do with a lookup that
  holds the entry of \<open>r\<close> alone.
\<close>

theorem attendance_map_last_row_wins:
  assumes "attendance_map att s = Inr amap"
    and "rows att = pre @ [r] @ post"
    and "\<forall>r'\<in>set post. cell r' ROLL_NUM_KEY \<noteq> cell r ROLL_NUM_KEY"
  shows "amap (cell r ROLL_NUM_KEY) = Some (cell r s)
         \<and> (\<forall>x. x ROLL_NUM_KEY = Some (cell r ROLL_NUM_KEY)
                \<longrightarrow> mark_row amap x = mark_row [cell r ROLL_NUM_KEY \<mapsto> cell r s] x)"
proof -
  have "amap = fold (\<lambda>r m. m(cell r ROLL_NUM_KEY \<mapsto> cell r s)) (pre @ [r] @ post) Map.empty"
    using assms(1,2) by (auto simp: attendance_map_def split: if_splits)
  then have "amap (cell r ROLL_NUM_KEY) = Some (cell r s)"
    using assms(3) fold_update_last [where kf = "\<lambda>r. cell r ROLL_NUM_KEY" and vf = "\<lambda>r. cell r s"]
    by simp
  then show ?thesis by (auto simp: mark_row_def Let_def)
qed

theorem attendance_map_last_row_wins_witness:
  "map (\<lambda>r. cell r ROLL_NUM_KEY) (rows sample_attendance) = [PInt 14, PInt 15, PInt 15]
   \<and> map (\<lambda>r. cell r ''Session 1'') (rows sample_attendance) = [PBool True, PBool False, PBool True]
   \<and> \<not> isl (attendance_map sample_attendance ''Session 1'')
   \<and> projr (attendance_map sample_attendance ''Session 1'') (PInt 15) = Some (PBool True)"
proof -
  let ?rs = "rows sample_attendance"
  have "length ?rs = 3"
    using arg_cong [OF sample_attendance_keys, of length] by simp
  then obtain a b c where abc: "?rs = [a, b, c]"
    by (auto simp: length_Suc_conv numeral_3_eq_3)
  then have split: "?rs = [a, b] @ [c] @ []" by simp
  have k: "cell c ROLL_NUM_KEY = PInt 15" "cell c ''Session 1'' = PBool True"
    using sample_attendance_keys sample_attendance_session_1 by (simp_all add: abc)
  have "\<forall>r'\<in>set []. cell r' ROLL_NUM_KEY \<noteq> cell c ROLL_NUM_KEY" by simp
  from attendance_map_last_row_wins [OF sample_attendance_map_1 split this]
  have "[PInt 14 \<mapsto> PBool True, PInt 15 \<mapsto> PBool True] (cell c ROLL_NUM_KEY)
          = Some (cell c ''Session 1'')"
    by blast
  then show ?thesis
    using sample_attendance_keys sample_attendance_session_1 sample_attendance_map_1 k by simp
qed

section \<open>The header row and the data rows\<close>

lemma find_header_None: "find_header i csv = None \<longleftrightarrow> \<not> list_ex is_header_row csv"
  by (induction csv arbitrary: i) auto

lemma find_header_first:
  "h < length csv \<Longrightarrow> is_header_row (csv ! h) \<Longrightarrow> \<forall>j<h. \<not> is_header_row (csv ! j)
     \<Longrightarrow> find_header i csv = Some (i + h)"
proof (induction csv arbitrary: i h)
  case Nil
  then show ?case by simp
next
  case (Cons row csv)
  show ?case
  proof (cases h)
    case 0
    with Cons.prems show ?thesis by simp
  next
    case (Suc h')
    have "\<not> is_header_row row" using Cons.prems(3) Suc by auto
    moreover have "find_header (Suc i) csv = Some (Suc i + h')"
      using Cons.prems Suc by (intro Cons.IH) auto
    ultimately show ?thesis using Suc by simp
  qed
qed

lemma clean_row_roll: "cell (map_of (clean_row row)) ''Roll No.'' = PStr (strip (row ! 0))"
  by (simp add: clean_row_def cell_def)

text \<open>
  C6. A row is a header row when it is not empty and one of its first three cells,
  trimmed and lower-cased, starts with "roll". If no row of the file is a header row,
  \<open>load_attendance\<close> fails with the header-not-found error. If \<open>h\<close> is the index of the
  first header row, the records of the result are made, in order, from exactly the rows
  at index \<open>h + 3\<close> and later that have at least 3 cells (shorter rows are skipped); when
  there is no such row the load fails on the missing roll column.
\<close>

theorem load_attendance_header_and_data:
  "is_header_row row = (row \<noteq> [] \<and> (\<exists>c\<in>set (take 3 row). startswith (lower (strip c)) ''roll''))
   \<and> (\<not> list_ex is_header_row csv \<longrightarrow> load_attendance csv = Inl Header_not_found)
   \<and> (h < length csv \<and> is_header_row (csv ! h) \<and> (\<forall>j<h. \<not> is_header_row (csv ! j)) \<longrightarrow>
        (let kept = filter (\<lambda>row. 3 \<le> length row) (drop (h + 3) csv)
         in if kept = [] then load_attendance csv = Inl (Missing_column ''Roll No.'')
            else \<exists>df. load_attendance csv = Inr df
                   \<and> rows df = map (\<lambda>row. (map_of (clean_row row))
                                      (ROLL_NUM_KEY \<mapsto> key_cell (extract_roll_number (PStr (strip (row ! 0))))))
                                   kept))"
proof (intro conjI impI)
  show "is_header_row row = (row \<noteq> [] \<and> (\<exists>c\<in>set (take 3 row). startswith (lower (strip c)) ''roll''))"
    by (cases row) (auto simp: is_header_row_def list_ex_iff)
next
  assume "\<not> list_ex is_header_row csv"
  then have "find_header 0 csv = None" by (simp add: find_header_None)
  then show "load_attendance csv = Inl Header_not_found" by (simp add: load_attendance_def)
next
  assume h: "h < length csv \<and> is_header_row (csv ! h) \<and> (\<forall>j<h. \<not> is_header_row (csv ! j))"
  then have fh: "find_header 0 csv = Some h"
    using find_header_first [of h csv 0] by simp
  let ?kept = "filter (\<lambda>row. 3 \<le> length row) (drop (h + 3) csv)"
  have dr: "data_rows h csv = ?kept"
    by (auto simp: data_rows_def intro!: filter_cong)
  show "let kept = ?kept
         in if kept = [] then load_attendance csv = Inl (Missing_column ''Roll No.'')
            else \<exists>df. load_attendance csv = Inr df
                   \<and> rows df = map (\<lambda>row. (map_of (clean_row row))
                                      (ROLL_NUM_KEY \<mapsto> key_cell (extract_roll_number (PStr (strip (row ! 0))))))
                                   kept"
  proof (cases "?kept = []")
    case True
    then show ?thesis
      by (simp add: load_attendance_def fh dr df_from_records_def)
  next
    case False
    let ?f = "\<lambda>r. key_cell (extract_roll_number (cell r ''Roll No.''))"
    let ?df = "df_set_column (df_from_records (map clean_row ?kept)) ROLL_NUM_KEY ?f"
    have "''Roll No.'' \<in> set (columns (df_from_records (map clean_row ?kept)))"
      using False by (cases "?kept") (simp_all add: df_from_records_def clean_row_def)
    then have ld: "load_attendance csv = Inr ?df"
      by (simp add: load_attendance_def fh dr)
    have "rows ?df = map (\<lambda>row. (map_of (clean_row row))
                                  (ROLL_NUM_KEY \<mapsto> key_cell (extract_roll_number (PStr (strip (row ! 0))))))
                         ?kept"
      by (simp add: df_set_column_def df_from_records_def comp_def clean_row_roll)
    with ld False show ?thesis
      unfolding Let_def by (simp only: if_False) blast
  qed
qed

theorem load_attendance_header_and_data_witness:
  "\<not> is_header_row (sample_csv ! 0) \<and> \<not> is_header_row (sample_csv ! 1) \<and> is_header_row (sample_csv ! 2)
   \<and> filter (\<lambda>row. 3 \<le> length row) (drop (2 + 3) sample_csv)
       = [[''14'', ''Jane'', ''Doe'', ''P'', ''09:00'', ''A'', ''09:05''],
          [''CS-015'', ''Bob'', ''Roe'', ''0'', ''-'', ''yes''],
          [''15'', ''Bob'', ''Roe'', ''yes'', ''-'', ''P'']]
   \<and> \<not> isl (load_attendance sample_csv)
   \<and> map (\<lambda>r. cell r ''Roll No.'') (rows (projr (load_attendance sample_csv)))
       = [PStr ''14'', PStr ''CS-015'', PStr ''15'']
   \<and> \<not> list_ex is_header_row [[''Sheet''], [''Name'', ''Surname'', ''Id'', ''Roll'']]
   \<and> load_attendance [[''Sheet''], [''Name'', ''Surname'', ''Id'', ''Roll'']] = Inl Header_not_found"
proof -
  have hd: "\<not> is_header_row (sample_csv ! 0)" "\<not> is_header_row (sample_csv ! 1)"
    "is_header_row (sample_csv ! 2)"
    by (simp_all add: sample_csv_def is_header_row_def strip_def lower_def lower_char_def isspace_def
        startswith_def)
  have "j < 2 \<Longrightarrow> j = 0 \<or> j = 1" for j :: nat by arith
  then have first: "\<forall>j<2. \<not> is_header_row (sample_csv ! j)"
    using hd by auto
  have len: "2 < length sample_csv" by (simp add: sample_csv_def)
  have kept: "filter (\<lambda>row. 3 \<le> length row) (drop (2 + 3) sample_csv)
       = [[''14'', ''Jane'', ''Doe'', ''P'', ''09:00'', ''A'', ''09:05''],
          [''CS-015'', ''Bob'', ''Roe'', ''0'', ''-'', ''yes''],
          [''15'', ''Bob'', ''Roe'', ''yes'', ''-'', ''P'']]"
    by (simp add: sample_csv_def)
  have none: "\<not> list_ex is_header_row [[''Sheet''], [''Name'', ''Surname'', ''Id'', ''Roll'']]"
    by (simp add: is_header_row_def strip_def lower_def lower_char_def isspace_def startswith_def)
  from load_attendance_header_and_data [of "[]" sample_csv 2] len hd(3) first
  have "let kept = filter (\<lambda>row. 3 \<le> length row) (drop (2 + 3) sample_csv)
         in if kept = [] then load_attendance sample_csv = Inl (Missing_column ''Roll No.'')
            else \<exists>df. load_attendance sample_csv = Inr df
                   \<and> rows df = map (\<lambda>row. (map_of (clean_row row))
                                      (ROLL_NUM_KEY \<mapsto> key_cell (extract_roll_number (PStr (strip (row ! 0))))))
                                   kept"
    by blast
  then obtain df where df: "load_attendance sample_csv = Inr df"
    "rows df = map (\<lambda>row. (map_of (clean_row row))
                       (ROLL_NUM_KEY \<mapsto> key_cell (extract_roll_number (PStr (strip (row ! 0))))))
                  (filter (\<lambda>row. 3 \<le> length row) (drop (2 + 3) sample_csv))"
    unfolding Let_def kept by auto
  have cells: "map (\<lambda>r. cell r ''Roll No.'') (rows df) = [PStr ''14'', PStr ''CS-015'', PStr ''15'']"
    unfolding df(2) kept
    by (simp add: cell_def clean_row_def ROLL_NUM_KEY_def strip_def isspace_def)
  have "load_attendance [[''Sheet''], [''Name'', ''Surname'', ''Id'', ''Roll'']] = Inl Header_not_found"
    using load_attendance_header_and_data [of "[]" "[[''Sheet''], [''Name'', ''Surname'', ''Id'', ''Roll'']]" 0]
      none by blast
  then show ?thesis
    using hd kept none df(1) cells by simp
qed

section \<open>The sample run evaluated\<close>










section \<open>Errors of one file and errors of the run\<close>




section \<open>File names\<close>
























end
